theory Spec2Isabelle
  imports Complex_Main
begin

section \<open>Strings\<close>

text \<open>
  A string of the program is a list of code units. The model takes the code units
  U+0000 to U+00FF, one \<^typ>\<open>char\<close> each, so \<open>length\<close> is the program's \<open>.length\<close>.
  Numbers of the program (scores, similarities, audio levels) are rationals: the decimal
  constants of the source are taken exactly and no rounding is modelled.
\<close>

definition is_space :: "char \<Rightarrow> bool" where
  \<comment> \<open>\<open>\s\<close> and the characters \<open>trim()\<close> strips: TAB, LF, VT, FF, CR, SP, NBSP.\<close>
  "is_space c = (let n = (of_char c :: nat) in (9 \<le> n \<and> n \<le> 13) \<or> n = 32 \<or> n = 160)"

definition is_digit :: "char \<Rightarrow> bool" where
  "is_digit c = (let n = (of_char c :: nat) in 48 \<le> n \<and> n \<le> 57)"

definition is_upper :: "char \<Rightarrow> bool" where
  "is_upper c = (let n = (of_char c :: nat) in 65 \<le> n \<and> n \<le> 90)"

definition is_lower :: "char \<Rightarrow> bool" where
  "is_lower c = (let n = (of_char c :: nat) in 97 \<le> n \<and> n \<le> 122)"

definition is_word :: "char \<Rightarrow> bool" where
  \<comment> \<open>\<open>\w\<close> is \<open>[A-Za-z0-9_]\<close>.\<close>
  "is_word c = (is_upper c \<or> is_lower c \<or> is_digit c \<or> (of_char c :: nat) = 95)"

definition toLowerChar :: "char \<Rightarrow> char" where
  \<comment> \<open>A-Z, and the upper-case letters U+00C0 to U+00DE without the sign U+00D7.\<close>
  "toLowerChar c =
     (let n = (of_char c :: nat)
      in if (65 \<le> n \<and> n \<le> 90) \<or> (192 \<le> n \<and> n \<le> 222 \<and> n \<noteq> 215)
         then char_of (n + 32) else c)"

definition toLowerCase :: "string \<Rightarrow> string" where
  "toLowerCase s = map toLowerChar s"

definition trim :: "string \<Rightarrow> string" where
  "trim s = rev (dropWhile is_space (rev (dropWhile is_space s)))"

fun startsWith :: "string \<Rightarrow> string \<Rightarrow> bool" where
  "startsWith s [] = True"
| "startsWith [] (p # ps) = False"
| "startsWith (c # cs) (p # ps) = (c = p \<and> startsWith cs ps)"

fun str_includes :: "string \<Rightarrow> string \<Rightarrow> bool" where
  \<comment> \<open>\<open>s.includes(p)\<close>: \<open>p\<close> occurs in \<open>s\<close> as a contiguous run.\<close>
  "str_includes [] p = (p = [])"
| "str_includes (c # cs) p = (startsWith (c # cs) p \<or> str_includes cs p)"

fun split_space_from :: "string \<Rightarrow> string \<Rightarrow> string list" where
  "split_space_from cur [] = [cur]"
| "split_space_from cur (c # cs) =
     (if c = CHR '' '' then cur # split_space_from [] cs
      else split_space_from (cur @ [c]) cs)"

definition split_space :: "string \<Rightarrow> string list" where
  \<comment> \<open>\<open>s.split(' ')\<close>: a piece ends at every single space, empty pieces are kept.\<close>
  "split_space s = split_space_from [] s"

function split_ws_from :: "string \<Rightarrow> string \<Rightarrow> string list" where
  "split_ws_from cur [] = [cur]"
| "split_ws_from cur (c # cs) =
     (if is_space c then cur # split_ws_from [] (dropWhile is_space cs)
      else split_ws_from (cur @ [c]) cs)"
  by pat_completeness auto
termination
  by (relation "measure (\<lambda>(cur, s). length s)")
     (auto simp: le_imp_less_Suc length_dropWhile_le)

definition split_ws :: "string \<Rightarrow> string list" where
  \<comment> \<open>\<open>s.split(/\s+/)\<close>: a piece ends at every maximal run of white space; white space
      at either end of \<open>s\<close> leaves an empty piece there.\<close>
  "split_ws s = split_ws_from [] s"

section \<open>Regular expressions\<close>

text \<open>
  The patterns of the source use literals, the classes \<open>\d\<close>, \<open>\s\<close>, \<open>\w\<close>, \<open>[A-Z]\<close>,
  \<open>[a-z]\<close>, the quantifiers \<open>+\<close> and \<open>*\<close> on a class, \<open>?\<close> on a group, sequence,
  alternation and one negative lookbehind. \<open>re_ends ci t r n\<close> lists the positions where a
  match of \<open>r\<close> that starts at position \<open>n\<close> of \<open>t\<close> can end, in the order in which a
  backtracking matcher tries them (a greedy quantifier gives the longest run first, an
  alternation its branches from left to right). \<open>ci\<close> is the flag \<open>i\<close>.
\<close>

datatype cclass = Digit | Space | Word | Upper | Lower

datatype regex =
    Lit string
  | Cls cclass
  | Plus cclass
  | Star cclass
  | Opt regex
  | Seq regex regex
  | Alt "regex list"
  | NotBehind regex

fun in_class :: "bool \<Rightarrow> cclass \<Rightarrow> char \<Rightarrow> bool" where
  "in_class ci Digit c = is_digit c"
| "in_class ci Space c = is_space c"
| "in_class ci Word c = is_word c"
| "in_class ci Upper c = (is_upper c \<or> (ci \<and> is_lower c))"
| "in_class ci Lower c = (is_lower c \<or> (ci \<and> is_upper c))"

definition char_eq :: "bool \<Rightarrow> char \<Rightarrow> char \<Rightarrow> bool" where
  "char_eq ci p c = (if ci then toLowerChar p = toLowerChar c else p = c)"

fun lit_at :: "bool \<Rightarrow> string \<Rightarrow> string \<Rightarrow> bool" where
  "lit_at ci [] s = True"
| "lit_at ci (p # ps) [] = False"
| "lit_at ci (p # ps) (c # cs) = (char_eq ci p c \<and> lit_at ci ps cs)"

fun re_ends :: "bool \<Rightarrow> string \<Rightarrow> regex \<Rightarrow> nat \<Rightarrow> nat list" where
  "re_ends ci t (Lit w) n = (if lit_at ci w (drop n t) then [n + length w] else [])"
| "re_ends ci t (Cls c) n =
     (case drop n t of [] \<Rightarrow> [] | x # _ \<Rightarrow> if in_class ci c x then [Suc n] else [])"
| "re_ends ci t (Plus c) n =
     map (\<lambda>k. n + k) (rev [1 ..< Suc (length (takeWhile (in_class ci c) (drop n t)))])"
| "re_ends ci t (Star c) n =
     map (\<lambda>k. n + k) (rev [0 ..< Suc (length (takeWhile (in_class ci c) (drop n t)))])"
| "re_ends ci t (Opt r) n = re_ends ci t r n @ [n]"
| "re_ends ci t (Seq r1 r2) n = concat (map (re_ends ci t r2) (re_ends ci t r1 n))"
| "re_ends ci t (Alt rs) n = concat (map (\<lambda>r. re_ends ci t r n) rs)"
| "re_ends ci t (NotBehind r) n =
     (if list_ex (\<lambda>k. List.member (re_ends ci t r k) n) [0 ..< Suc n] then [] else [n])"

definition re_test :: "bool \<Rightarrow> regex \<Rightarrow> string \<Rightarrow> bool" where
  \<comment> \<open>\<open>r.test(t)\<close> for a pattern without the flag \<open>g\<close>: a match starts somewhere.\<close>
  "re_test ci r t = list_ex (\<lambda>n. re_ends ci t r n \<noteq> []) [0 ..< Suc (length t)]"

function re_count_from :: "bool \<Rightarrow> regex \<Rightarrow> string \<Rightarrow> nat \<Rightarrow> nat" where
  "re_count_from ci r t n =
     (if length t < n then 0
      else case re_ends ci t r n of
             [] \<Rightarrow> re_count_from ci r t (Suc n)
           | e # _ \<Rightarrow> Suc (re_count_from ci r t (if n < e then e else Suc n)))"
  by pat_completeness auto
termination
  by (relation "measure (\<lambda>(ci, r, t, n). Suc (length t) - n)") auto

definition re_match_count :: "bool \<Rightarrow> regex \<Rightarrow> string \<Rightarrow> nat" where
  \<comment> \<open>The length of \<open>t.match(r)\<close> for a pattern with the flag \<open>g\<close>, 0 when it is null:
      the matches are taken from left to right, each search starting where the last
      match ended (one further after an empty match).\<close>
  "re_match_count ci r t = re_count_from ci r t 0"

definition lits :: "string list \<Rightarrow> regex" where
  \<comment> \<open>\<open>(?:w1|w2|...)\<close>\<close>
  "lits ws = Alt (map Lit ws)"

section \<open>The content scorer\<close>

record indicator =
  pattern :: regex
  weight :: rat
  name :: string

text \<open>
  The table of the source, in its order. The patterns that are not a plain alternation
  of words are
  \<^item> numbers: \<^verbatim>\<open>/\d+(\.\d+)?(\s*%)?/\<close>
  \<^item> proper nouns: \<^verbatim>\<open>/(?<!\.\s+)[A-Z][a-z]+/\<close>
  \<^item> factual statements: \<^verbatim>\<open>/(?:is|are|was|were|has|have|had|can|could|should|would|will)\s+/\<close>
  \<^item> technical terms: \<^verbatim>\<open>/(?:algorithm|...|finding)s?/\<close>
  \<^item> time references:
    \<^verbatim>\<open>/(?:today|yesterday|tomorrow|last\s+\w+|next\s+\w+|in\s+\d+\s+\w+|during|...|when)/\<close>
\<close>

definition infoIndicators :: "indicator list" where
  "infoIndicators =
   [\<lparr>pattern = Seq (Plus Digit) (Seq (Opt (Seq (Lit ''.'') (Plus Digit)))
                 (Opt (Seq (Star Space) (Lit ''%'')))),
     weight = 12 / 100, name = ''numbers''\<rparr>,
    \<lparr>pattern = Seq (NotBehind (Seq (Lit ''.'') (Plus Space))) (Seq (Cls Upper) (Plus Lower)),
     weight = 8 / 100, name = ''proper nouns''\<rparr>,
    \<lparr>pattern = Seq (lits [''is'', ''are'', ''was'', ''were'', ''has'', ''have'', ''had'',
                       ''can'', ''could'', ''should'', ''would'', ''will''])
                 (Plus Space),
     weight = 5 / 100, name = ''factual statements''\<rparr>,
    \<lparr>pattern = Seq (lits [''algorithm'', ''function'', ''process'', ''method'',
                       ''technique'', ''system'', ''framework'', ''api'', ''interface'',
                       ''component'', ''module'', ''database'', ''server'', ''client'',
                       ''user'', ''data'', ''information'', ''analysis'', ''research'',
                       ''study'', ''report'', ''result'', ''finding''])
                 (Opt (Lit ''s'')),
     weight = 8 / 100, name = ''technical terms''\<rparr>,
    \<lparr>pattern = lits [''more'', ''less'', ''better'', ''worse'', ''higher'', ''lower'',
                     ''increase'', ''decrease'', ''improve'', ''reduce'', ''enhance'',
                     ''diminish''],
     weight = 5 / 100, name = ''comparisons''\<rparr>,
    \<lparr>pattern = Alt [Lit ''today'', Lit ''yesterday'', Lit ''tomorrow'',
                 Seq (Lit ''last'') (Seq (Plus Space) (Plus Word)),
                 Seq (Lit ''next'') (Seq (Plus Space) (Plus Word)),
                 Seq (Lit ''in'') (Seq (Plus Space) (Seq (Plus Digit)
                   (Seq (Plus Space) (Plus Word)))),
                 Lit ''during'', Lit ''after'', Lit ''before'', Lit ''while'', Lit ''when''],
     weight = 5 / 100, name = ''time references''\<rparr>,
    \<lparr>pattern = lits [''because'', ''since'', ''as'', ''therefore'', ''thus'', ''hence'',
                     ''consequently'', ''due to'', ''results in'', ''causes'',
                     ''affects'', ''influences'', ''impacts'', ''leads to'',
                     ''follows from''],
     weight = 8 / 100, name = ''causal relationships''\<rparr>,
    \<lparr>pattern = lits [''first'', ''second'', ''third'', ''fourth'', ''fifth'',
                     ''finally'', ''lastly'', ''next'', ''then'', ''also'',
                     ''additionally'', ''furthermore'', ''moreover'', ''in addition''],
     weight = 5 / 100, name = ''structured information''\<rparr>,
    \<lparr>pattern = lits [''means'', ''refers to'', ''is defined as'', ''is a'', ''are'',
                     ''represents'', ''signifies'', ''denotes'', ''indicates'',
                     ''suggests''],
     weight = 5 / 100, name = ''definitions''\<rparr>,
    \<lparr>pattern = lits [''john'', ''jane'', ''bob'', ''alice'', ''david'', ''sarah'',
                     ''michael'', ''james'', ''robert'', ''mary'', ''william'',
                     ''elizabeth'', ''richard'', ''joseph'', ''thomas'', ''charles'',
                     ''susan'', ''jessica'', ''daniel'', ''jennifer''],
     weight = 5 / 100, name = ''names''\<rparr>,
    \<lparr>pattern = lits [''meeting'', ''call'', ''conference'', ''discussion'',
                     ''presentation'', ''project'', ''deadline'', ''task'', ''goal'',
                     ''objective'', ''plan'', ''strategy'', ''team'', ''group'',
                     ''department'', ''manager'', ''client'', ''customer'', ''email'',
                     ''report'', ''document'', ''file'', ''folder''],
     weight = 5 / 100, name = ''work terms''\<rparr>,
    \<lparr>pattern = lits [''office'', ''room'', ''building'', ''street'', ''avenue'',
                     ''road'', ''boulevard'', ''city'', ''town'', ''state'', ''country'',
                     ''region'', ''area'', ''location'', ''place'', ''site''],
     weight = 5 / 100, name = ''locations''\<rparr>,
    \<lparr>pattern = lits [''create'', ''build'', ''develop'', ''implement'', ''design'',
                     ''make'', ''start'', ''begin'', ''finish'', ''complete'',
                     ''deliver'', ''send'', ''receive'', ''update'', ''change'',
                     ''modify'', ''improve'', ''fix'', ''solve''],
     weight = 5 / 100, name = ''action verbs''\<rparr>]"

definition fillerPhrases :: "regex list" where
  \<comment> \<open>Both patterns carry the flag \<open>g\<close>.\<close>
  "fillerPhrases =
   [lits [''um'', ''uh'', ''like'', ''you know'', ''i mean'', ''sort of'', ''kind of'',
          ''basically'', ''actually'', ''literally'', ''honestly'', ''to be honest'',
          ''i guess'', ''i think'', ''i believe'', ''in my opinion''],
    lits [''so'', ''well'', ''right'', ''okay'', ''now'', ''anyway'', ''anyhow'',
          ''whatever'', ''as i was saying'', ''where was i'']]"

definition questionPattern :: regex where
  \<comment> \<open>\<^verbatim>\<open>/\?|(?:who|...|how)\s+(?:is|...|could)\s+(?:the|...|i)\s+/i\<close>\<close>
  "questionPattern =
   Alt [Lit ''?'',
        Seq (lits [''who'', ''what'', ''when'', ''where'', ''why'', ''how''])
          (Seq (Plus Space)
            (Seq (lits [''is'', ''are'', ''was'', ''were'', ''will'', ''would'', ''could'',
                   ''should'', ''do'', ''does'', ''did'', ''can'', ''could''])
              (Seq (Plus Space)
                (Seq (lits [''the'', ''a'', ''an'', ''it'', ''they'', ''we'', ''you'',
                         ''i''])
                  (Plus Space)))))]"

datatype reason =
    EmptyContent
  | ContentTooShort
  | ContentContains "string list"
  | InsufficientDensity rat
  | NoSignificantInformation
  | MayContainUseful

record quality =
  score :: rat
  isNoteworthy :: bool
  reason :: reason

definition matchedIndicators :: "string \<Rightarrow> indicator list" where
  \<comment> \<open>The indicators whose pattern the loop finds in the normalized text, in table order.\<close>
  "matchedIndicators normalizedText =
     filter (\<lambda>ind. re_test False (pattern ind) normalizedText) infoIndicators"

definition unboundedScore :: "string \<Rightarrow> nat \<Rightarrow> rat" where
  \<comment> \<open>The variable \<open>score\<close> when the source reaches "Ensure score is within bounds":
      the base score and the steps 2 to 5.\<close>
  "unboundedScore normalizedText wordCount =
     (let score0 = 0 + 15 / 100;
          score1 = foldl (\<lambda>sc ind. sc + weight ind) score0
                     (matchedIndicators normalizedText);
          fillerCount = foldl (\<lambda>k p. k + re_match_count False p normalizedText)
                          0 fillerPhrases;
          fillerDensity = of_nat fillerCount / of_nat wordCount;
          score2 = score1 - fillerDensity * (1 / 10);
          score3 = (if 5 < wordCount \<and> wordCount < 100 then score2 + 5 / 100
                    else if 150 < wordCount then score2 - 5 / 100
                    else score2)
      in if re_test True questionPattern normalizedText then score3 - 2 / 100 else score3)"

definition analyzeContentQuality :: "string \<Rightarrow> quality" where
  "analyzeContentQuality text =
     (if text = [] \<or> length (trim text) = 0
      then \<lparr>score = 0, isNoteworthy = False, reason = EmptyContent\<rparr>
      else
        let normalizedText = trim (toLowerCase text);
            wordCount = length (split_ws normalizedText)
        in if wordCount < 3
           then \<lparr>score = 1 / 10, isNoteworthy = False, reason = ContentTooShort\<rparr>
           else
             let foundIndicators = map name (matchedIndicators normalizedText);
                 score5 = max 0 (min 1 (unboundedScore normalizedText wordCount));
                 noteworthy = (15 / 100 \<le> score5)
             in \<lparr>score = score5, isNoteworthy = noteworthy,
                 reason = (if noteworthy then ContentContains foundIndicators
                           else if 0 < length foundIndicators
                           then InsufficientDensity score5
                           else NoSignificantInformation)\<rparr>)"

section \<open>The similarity measures\<close>

definition calculateSimpleStringSimilarity :: "string \<Rightarrow> string \<Rightarrow> rat" where
  "calculateSimpleStringSimilarity str1 str2 =
     (let s1 = toLowerCase str1; s2 = toLowerCase str2
      in if s1 = s2 then 1
         else if length s1 = 0 \<or> length s2 = 0 then 0
         else
           let words1 = split_ws s1; words2 = split_ws s2;
               matchCount = foldl (\<lambda>k word. if List.member words2 word then Suc k else k)
                              0 words1
           in of_nat matchCount / of_nat (max (length words1) (length words2)))"

fun matrix :: "string \<Rightarrow> string \<Rightarrow> nat \<Rightarrow> nat \<Rightarrow> nat" where
  \<comment> \<open>The entry \<open>matrix[i][j]\<close> that the three loops leave: row 0 and column 0 hold the
      index, every other entry is the minimum over deletion, insertion, substitution.\<close>
  "matrix a b 0 j = j"
| "matrix a b (Suc i) 0 = Suc i"
| "matrix a b (Suc i) (Suc j) =
     (let cost = (if a ! i = b ! j then 0 else 1)
      in min (matrix a b i (Suc j) + 1)
           (min (matrix a b (Suc i) j + 1) (matrix a b i j + cost)))"

definition calculateStringSimilarity :: "string \<Rightarrow> string \<Rightarrow> rat" where
  "calculateStringSimilarity str1 str2 =
     (if str1 = str2 then 1
      else if length str1 = 0 \<or> length str2 = 0 then 0
      else
        let a = trim (toLowerCase str1); b = trim (toLowerCase str2);
            maxLength = max (length a) (length b)
        in if maxLength = 0 then 1
           else 1 - of_nat (matrix a b (length a) (length b)) / of_nat maxLength)"

section \<open>The recording session\<close>

text \<open>
  The state of the hook \<open>useAudioTranscription\<close>: its refs and the state variables it
  sets. The calls that leave the program are parameters: \<open>generateText\<close> (the note
  generation; \<open>None\<close> when the call rejects), \<open>transcribe\<close> (the speech-to-text call),
  the clock, and whether the platform can build a recorder.

  \<open>processAccumulatedContent\<close> is asynchronous and, but for \<open>stopRecording\<close>, called
  without \<open>await\<close>. Its run is therefore in two parts. The first part runs inside the
  handler that calls it, up to the call of \<open>generateText\<close>: the content is finalized and
  scored there. The call is then in flight (\<open>pendingNotes\<close>), other handlers run and see
  the buffer as it was, and the second part (\<open>noteReturned\<close>) runs as an event of its own
  when the call settles: only then is the buffer cleared and \<open>lastProcessingTime\<close> set.
  When the scorer turns the content down no call is made, and the rest of the function
  runs before any other handler. \<open>processAudioChunks\<close> awaits the transcription of its
  blob; that handler is taken as one step, from the recorder's \<open>onstop\<close> to the end of its
  \<open>finally\<close> block, with the result of the call given by the environment.

  Three lists record what the handlers did: \<open>flushed\<close> holds every content for which the
  guarded body of \<open>processAccumulatedContent\<close> ran, \<open>scored\<close> every text given to
  \<open>analyzeContentQuality\<close>, \<open>transcribed\<close> every blob given to \<open>transcribe\<close>.
\<close>

datatype recorder = Inactive | Recording

text \<open>
  \<open>TranscribeThrows\<close>: the call rejects or times out. \<open>TranscribeReturns text\<close>: it
  resolves; \<open>text\<close> is empty when the result or its text is missing.
\<close>

datatype transcribe_result = TranscribeThrows | TranscribeReturns string

text \<open>
  What \<open>createAndStartMediaRecorder\<close> meets: \<open>new MediaRecorder\<close> throws, or \<open>start\<close>
  throws on the new recorder, or the recorder is built and recording.
\<close>

datatype creation = ConstructorThrows | StartThrows | Created

text \<open>A blob is the list of its bytes; the blob of several chunks is their concatenation.\<close>

type_synonym blob = "nat list"

record session =
  transcription :: string
  summary :: string
  isProcessing :: bool
  audioLevel :: rat
  contentQuality :: "quality option"
  mediaRecorder :: "recorder option"
  audioChunks :: "blob list"
  intervalSet :: bool
  accumulatedTranscription :: string
  silenceStartTime :: "int option"
  lastProcessingTime :: int
  streamActive :: bool
  analyserSet :: bool
  audioLevelHistory :: "rat list"
  samplingScheduled :: bool
  processedSummaries :: "string list"
  filteredContentCount :: nat
  transcriptionErrorCount :: nat
  pendingNotes :: "string list"
  flushed :: "string list"
  scored :: "string list"
  transcribed :: "blob list"

record env =
  generateText :: "string \<Rightarrow> string option"
  transcribe :: "blob \<Rightarrow> transcribe_result"
  newRecorder :: creation
  getUserMedia :: bool
  newAudioContext :: bool

definition pauseDetectionThreshold :: int where "pauseDetectionThreshold = 400"
definition minSilenceLevel :: rat where "minSilenceLevel = 2 / 100"
definition minContentLength :: nat where "minContentLength = 3"
definition maxContentLength :: nat where "maxContentLength = 150"
definition minTimeBetweenNotes :: int where "minTimeBetweenNotes = 800"
definition audioLevelHistorySize :: nat where "audioLevelHistorySize = 20"
definition maxTranscriptionErrors :: nat where "maxTranscriptionErrors = 3"

definition fallbackMessage :: string where
  "fallbackMessage = ''Speech detected but transcription unavailable.''"

definition initial :: session where
  \<comment> \<open>The values the hook gives its state and refs when it is mounted.\<close>
  "initial =
     \<lparr>transcription = [], summary = [], isProcessing = False, audioLevel = 0,
      contentQuality = None, mediaRecorder = None, audioChunks = [], intervalSet = False,
      accumulatedTranscription = [], silenceStartTime = None, lastProcessingTime = 0,
      streamActive = False, analyserSet = False, audioLevelHistory = [],
      samplingScheduled = False, processedSummaries = [], filteredContentCount = 0,
      transcriptionErrorCount = 0, pendingNotes = [], flushed = [], scored = [],
      transcribed = []\<rparr>"

definition generateTopicalNote_sync :: "string \<Rightarrow> session \<Rightarrow> bool \<times> session" where
  \<comment> \<open>\<open>generateTopicalNote\<close> up to \<open>await generateText\<close>. The first component is True
      when the call is made; otherwise the function has returned the empty string.
      \<open>contentQuality\<close> holds the analysis object itself, so the override of
      \<open>isNoteworthy\<close> and \<open>reason\<close> shows in it.\<close>
  "generateTopicalNote_sync text s =
     (if text = [] \<or> trim text = [] then (False, s)
      else
        let analysis = analyzeContentQuality text;
            s1 = s\<lparr>scored := scored s @ [text]\<rparr>;
            analysis1 = (if \<not> isNoteworthy analysis \<and> 1 / 10 \<le> score analysis
                         then analysis\<lparr>isNoteworthy := True, reason := MayContainUseful\<rparr>
                         else analysis);
            s2 = s1\<lparr>contentQuality := Some analysis1\<rparr>
        in if \<not> isNoteworthy analysis1
           then (False, s2\<lparr>filteredContentCount := filteredContentCount s2 + 1\<rparr>)
           else (True, s2))"

definition generateTopicalNote_resume :: "env \<Rightarrow> string \<Rightarrow> session \<Rightarrow> string \<times> session" where
  \<comment> \<open>\<open>generateTopicalNote\<close> from the moment its call of \<open>generateText\<close> settles: the
      string it returns and the session it leaves.\<close>
  "generateTopicalNote_resume e text s =
     (case generateText e text of
        None \<Rightarrow> ([], s)
      | Some summaryText \<Rightarrow>
          if str_includes summaryText ''NO_NOTEWORTHY_CONTENT''
          then ([], s\<lparr>filteredContentCount := filteredContentCount s + 1\<rparr>)
          else if list_ex (\<lambda>existingSummary.
                     85 / 100 < calculateSimpleStringSimilarity
                                  (trim summaryText) existingSummary)
                    (processedSummaries s)
          then ([], s)
          else (summaryText,
                s\<lparr>processedSummaries :=
                    (if List.member (processedSummaries s) (trim summaryText)
                     then processedSummaries s
                     else processedSummaries s @ [trim summaryText])\<rparr>))"

definition finishProcessing :: "string \<Rightarrow> int \<Rightarrow> session \<Rightarrow> session" where
  \<comment> \<open>\<open>processAccumulatedContent\<close> after \<open>await generateTopicalNote\<close>: \<open>topicalNote\<close> is
      the awaited string, \<open>fin\<close> the clock at that moment.\<close>
  "finishProcessing topicalNote fin s =
     (let s1 = (if topicalNote \<noteq> []
                then s\<lparr>summary := topicalNote, lastProcessingTime := fin\<rparr>
                else s)
      in s1\<lparr>accumulatedTranscription := [], isProcessing := False\<rparr>)"

definition processAccumulatedContent_sync :: "session \<Rightarrow> session" where
  \<comment> \<open>What a call of \<open>processAccumulatedContent\<close> without \<open>await\<close> does before another
      handler can run. With \<open>generateText\<close> called, the content joins \<open>pendingNotes\<close> and
      the buffer stays. With no call made the awaited string is empty, and the rest of the
      function, which then only resets the buffer and the flag, runs at once.\<close>
  "processAccumulatedContent_sync s =
     (let content = trim (accumulatedTranscription s)
      in if content \<noteq> [] \<and> minContentLength \<le> length (split_space content)
         then
           let s1 = s\<lparr>isProcessing := True, transcription := content,
                      flushed := flushed s @ [content]\<rparr>;
               (called, s2) = generateTopicalNote_sync content s1
           in if called then s2\<lparr>pendingNotes := pendingNotes s2 @ [content]\<rparr>
              else s2\<lparr>accumulatedTranscription := [], isProcessing := False\<rparr>
         else s)"

definition noteReturned :: "env \<Rightarrow> nat \<Rightarrow> int \<Rightarrow> session \<Rightarrow> session" where
  \<comment> \<open>The call of \<open>generateText\<close> at position \<open>i\<close> of \<open>pendingNotes\<close> settles, at clock
      \<open>fin\<close>: the rest of \<open>generateTopicalNote\<close> and of \<open>processAccumulatedContent\<close> runs.\<close>
  "noteReturned e i fin s =
     (if i < length (pendingNotes s)
      then
        let content = pendingNotes s ! i;
            s1 = s\<lparr>pendingNotes := take i (pendingNotes s) @ drop (Suc i) (pendingNotes s)\<rparr>;
            (topicalNote, s2) = generateTopicalNote_resume e content s1
        in finishProcessing topicalNote fin s2
      else s)"

definition processAccumulatedContent_awaited :: "env \<Rightarrow> int \<Rightarrow> session \<Rightarrow> session" where
  \<comment> \<open>\<open>await processAccumulatedContent()\<close> as \<open>stopRecording\<close> runs it: the caller goes
      on when the call it has just made has settled, at clock \<open>fin\<close>.\<close>
  "processAccumulatedContent_awaited e fin s =
     (let s1 = processAccumulatedContent_sync s
      in if length (pendingNotes s) < length (pendingNotes s1)
         then noteReturned e (length (pendingNotes s)) fin s1
         else s1)"

definition checkForSpeechPause :: "int \<Rightarrow> session \<Rightarrow> session" where
  "checkForSpeechPause now s =
     (let timeSinceLastProcessing = now - lastProcessingTime s;
          wordCount = length (split_space (accumulatedTranscription s))
      in if maxContentLength \<le> wordCount \<and> minTimeBetweenNotes < timeSinceLastProcessing
         then processAccumulatedContent_sync s
         else if length (audioLevelHistory s) < 5 then s
         else
           let recentLevels = drop (length (audioLevelHistory s) - 5) (audioLevelHistory s);
               isCurrentlySilent = list_all (\<lambda>level. level < minSilenceLevel) recentLevels
           in if isCurrentlySilent
              then (case silenceStartTime s of
                      None \<Rightarrow> s\<lparr>silenceStartTime := Some now\<rparr>
                    | Some start \<Rightarrow>
                        if pauseDetectionThreshold \<le> now - start
                        then (if minContentLength \<le> wordCount
                                 \<and> minTimeBetweenNotes < timeSinceLastProcessing
                              then processAccumulatedContent_sync s
                              else s)
                        else s)
              else s\<lparr>silenceStartTime := None\<rparr>)"

definition sampleAudioLevel :: "rat \<Rightarrow> int \<Rightarrow> session \<Rightarrow> session" where
  \<comment> \<open>\<open>average\<close> is the mean of the frequency data, already divided by 255.\<close>
  "sampleAudioLevel average now s =
     (if \<not> analyserSet s \<or> mediaRecorder s = None
      then s\<lparr>samplingScheduled := False\<rparr>
      else
        let s1 = s\<lparr>audioLevel := average,
                   audioLevelHistory := audioLevelHistory s @ [average]\<rparr>;
            s2 = (if audioLevelHistorySize < length (audioLevelHistory s1)
                  then s1\<lparr>audioLevelHistory := tl (audioLevelHistory s1)\<rparr> else s1)
        in (checkForSpeechPause now s2)\<lparr>samplingScheduled := True\<rparr>)"

definition setupAudioLevelMonitoring :: "session \<Rightarrow> session" where
  "setupAudioLevelMonitoring s =
     s\<lparr>analyserSet := True, audioLevelHistory := replicate audioLevelHistorySize 0,
       samplingScheduled := True\<rparr>"

definition createAndStartMediaRecorder :: "env \<Rightarrow> session \<Rightarrow> bool \<times> session" where
  \<comment> \<open>A recorder that was recording is stopped first; its \<open>onstop\<close> is a later event.\<close>
  "createAndStartMediaRecorder e s =
     (let s1 = s\<lparr>mediaRecorder := None\<rparr>
      in case newRecorder e of
           ConstructorThrows \<Rightarrow> (False, s1)
         | StartThrows \<Rightarrow> (False, s1\<lparr>mediaRecorder := Some Inactive, audioChunks := []\<rparr>)
         | Created \<Rightarrow> (True, s1\<lparr>mediaRecorder := Some Recording, audioChunks := []\<rparr>))"

definition restartRecording :: "env \<Rightarrow> bool \<Rightarrow> session \<Rightarrow> session" where
  \<comment> \<open>The block "Restart recording if still active", which the source writes out three
      times (the third time without clearing the chunks). \<open>start\<close> throws on a recorder
      that is not inactive.\<close>
  "restartRecording e clear s =
     (if streamActive s \<and> mediaRecorder s \<noteq> None
      then
        let s1 = (if clear then s\<lparr>audioChunks := []\<rparr> else s)
        in if mediaRecorder s1 = Some Inactive then s1\<lparr>mediaRecorder := Some Recording\<rparr>
           else snd (createAndStartMediaRecorder e s1)
      else s)"

definition handleTranscriptionError :: "session \<Rightarrow> session" where
  "handleTranscriptionError s =
     (let s1 = s\<lparr>transcriptionErrorCount := transcriptionErrorCount s + 1\<rparr>
      in if maxTranscriptionErrors \<le> transcriptionErrorCount s1
         then (if \<not> str_includes (accumulatedTranscription s1) fallbackMessage
               then processAccumulatedContent_sync
                      (s1\<lparr>accumulatedTranscription :=
                            accumulatedTranscription s1 @ '' '' @ fallbackMessage\<rparr>)
               else s1)
         else s1)"

definition processAudioChunks :: "env \<Rightarrow> int \<Rightarrow> session \<Rightarrow> session" where
  \<comment> \<open>The handler of the recorder's \<open>onstop\<close>. The early return for a small blob sits
      inside the \<open>try\<close>, so the \<open>finally\<close> block runs after it as well.\<close>
  "processAudioChunks e now s =
     (if 0 < length (audioChunks s)
      then
        let s1 = s\<lparr>isProcessing := True\<rparr>;
            audioBlob = concat (audioChunks s1)
        in if length audioBlob < 800
           then restartRecording e True
                  ((restartRecording e True (s1\<lparr>isProcessing := False\<rparr>))
                     \<lparr>isProcessing := False\<rparr>)
           else
             let s2 = s1\<lparr>transcribed := transcribed s1 @ [audioBlob]\<rparr>;
                 s3 = (case transcribe e audioBlob of
                         TranscribeThrows \<Rightarrow> handleTranscriptionError s2
                       | TranscribeReturns text \<Rightarrow>
                           let s4 = s2\<lparr>transcriptionErrorCount := 0\<rparr>
                           in if text \<noteq> []
                              then
                                let s5 = s4\<lparr>accumulatedTranscription :=
                                              accumulatedTranscription s4 @ '' '' @ text\<rparr>;
                                    timeSinceLastProcessing = now - lastProcessingTime s5
                                in if 3000 < timeSinceLastProcessing
                                      \<and> 0 < length (trim (accumulatedTranscription s5))
                                   then processAccumulatedContent_sync s5
                                   else s5
                              else handleTranscriptionError s4)
             in restartRecording e True (s3\<lparr>isProcessing := False\<rparr>)
      else restartRecording e False (s\<lparr>isProcessing := False\<rparr>))"

definition startRecording :: "env \<Rightarrow> int \<Rightarrow> session \<Rightarrow> bool \<times> session" where
  \<comment> \<open>The first component is False when the source rethrows the error.\<close>
  "startRecording e now s =
     (let s1 = s\<lparr>accumulatedTranscription := [], lastProcessingTime := now,
                silenceStartTime := None, audioLevelHistory := [],
                processedSummaries := [], filteredContentCount := 0,
                transcriptionErrorCount := 0, contentQuality := None, audioLevel := 0\<rparr>
      in if \<not> getUserMedia e then (False, s1\<lparr>isProcessing := False\<rparr>)
         else
           let s2 = s1\<lparr>streamActive := True\<rparr>;
               s3 = (if newAudioContext e then setupAudioLevelMonitoring s2 else s2);
               (recorderStarted, s4) = createAndStartMediaRecorder e s3
           in if \<not> recorderStarted then (False, s4\<lparr>isProcessing := False\<rparr>)
              else (True, s4\<lparr>intervalSet := True\<rparr>))"

definition stopRecording :: "env \<Rightarrow> int \<Rightarrow> session \<Rightarrow> session" where
  \<comment> \<open>The one caller that awaits the flush.\<close>
  "stopRecording e fin s =
     (let s1 = s\<lparr>samplingScheduled := False, intervalSet := False, mediaRecorder := None,
                streamActive := False\<rparr>;
          s2 = (if trim (accumulatedTranscription s1) \<noteq> []
                then processAccumulatedContent_awaited e fin s1 else s1)
      in s2\<lparr>audioLevel := 0\<rparr>)"

definition dataAvailable :: "blob \<Rightarrow> session \<Rightarrow> session" where
  \<comment> \<open>The handler \<open>ondataavailable\<close>.\<close>
  "dataAvailable chunk s =
     (if 0 < length chunk then s\<lparr>audioChunks := audioChunks s @ [chunk]\<rparr> else s)"

definition intervalTick :: "session \<Rightarrow> session" where
  \<comment> \<open>The callback of the 3000 ms interval: it stops a recorder that is recording. The
      recorder then delivers its data and its \<open>onstop\<close> runs, as later events.\<close>
  "intervalTick s =
     (if intervalSet s \<and> mediaRecorder s = Some Recording
      then s\<lparr>mediaRecorder := Some Inactive\<rparr> else s)"

datatype event =
    Sample rat int
  | IntervalTick
  | DataAvailable blob
  | RecorderStopped int
  | NoteReturned nat int
  | Stop int

fun step :: "env \<Rightarrow> session \<Rightarrow> event \<Rightarrow> session" where
  "step e s (Sample average now) = sampleAudioLevel average now s"
| "step e s IntervalTick = intervalTick s"
| "step e s (DataAvailable chunk) = dataAvailable chunk s"
| "step e s (RecorderStopped now) = processAudioChunks e now s"
| "step e s (NoteReturned i fin) = noteReturned e i fin s"
| "step e s (Stop fin) = stopRecording e fin s"

definition run :: "env \<Rightarrow> session \<Rightarrow> event list \<Rightarrow> session" where
  "run e s evs = foldl (step e) s evs"

definition started :: "env \<Rightarrow> int \<Rightarrow> session" where
  \<comment> \<open>The session that \<open>startRecording\<close> leaves when the hook has just been mounted.\<close>
  "started e now = snd (startRecording e now initial)"

definition exampleEnv :: "transcribe_result \<Rightarrow> env" where
  \<comment> \<open>An environment for the examples: the platform works, every note generation
      returns "A note", every transcription ends as given.\<close>
  "exampleEnv r =
     \<lparr>generateText = (\<lambda>text. Some ''A note''), transcribe = (\<lambda>audio. r),
      newRecorder = Created, getUserMedia = True, newAudioContext = True\<rparr>"

section \<open>Properties of the strings\<close>

lemma trim_Nil: "trim [] = []"
  by (simp add: trim_def)

lemma clamp_bounds: "0 \<le> max 0 (min 1 (x::rat)) \<and> max 0 (min 1 x) \<le> 1"
  by (simp add: max_def min_def)

lemma toLowerChar_idem: "toLowerChar (toLowerChar c) = toLowerChar c"
  by (auto simp: toLowerChar_def Let_def)

lemma is_space_toLowerChar: "is_space (toLowerChar c) = is_space c"
  by (auto simp: toLowerChar_def is_space_def Let_def)

lemma not_upper_toLowerChar: "\<not> is_upper (toLowerChar c)"
  by (auto simp: toLowerChar_def is_upper_def Let_def)

lemma toLowerCase_idem: "toLowerCase (toLowerCase s) = toLowerCase s"
  by (simp add: toLowerCase_def toLowerChar_idem)

lemma trim_toLowerCase: "trim (toLowerCase s) = toLowerCase (trim s)"
  by (simp add: trim_def toLowerCase_def dropWhile_map rev_map comp_def
      is_space_toLowerChar)

lemma toLowerCase_Nil: "(toLowerCase s = []) = (s = [])"
  by (simp add: toLowerCase_def)

lemma length_toLowerCase: "length (toLowerCase s) = length s"
  by (simp add: toLowerCase_def)

lemma split_space_from_length:
  "length (split_space_from cur s) = Suc (length (filter (\<lambda>c. c = CHR '' '') s))"
  by (induction s arbitrary: cur) simp_all

lemma split_space_length:
  "length (split_space s) = Suc (length (filter (\<lambda>c. c = CHR '' '') s))"
  by (simp add: split_space_def split_space_from_length)

lemma filter_dropWhile_le: "length (filter P (dropWhile Q xs)) \<le> length (filter P xs)"
  by (induction xs) simp_all

lemma filter_trim_le: "length (filter P (trim s)) \<le> length (filter P s)"
proof -
  have "length (filter P (trim s))
          = length (filter P (dropWhile is_space (rev (dropWhile is_space s))))"
    by (simp add: trim_def rev_filter [symmetric])
  also have "\<dots> \<le> length (filter P (rev (dropWhile is_space s)))"
    by (rule filter_dropWhile_le)
  also have "\<dots> = length (filter P (dropWhile is_space s))"
    by (simp add: rev_filter [symmetric])
  also have "\<dots> \<le> length (filter P s)"
    by (rule filter_dropWhile_le)
  finally show ?thesis .
qed

lemma split_space_trim_le: "length (split_space (trim s)) \<le> length (split_space s)"
  by (simp add: split_space_length filter_trim_le)

lemma dropWhile_fixed: "xs \<noteq> [] \<Longrightarrow> \<not> P (hd xs) \<Longrightarrow> dropWhile P (xs @ ys) = xs @ ys"
  by (cases xs) simp_all

lemma dropWhile_keeps_suffix:
  "w \<noteq> [] \<Longrightarrow> \<not> P (hd w) \<Longrightarrow> dropWhile P (pre @ w) = dropWhile P pre @ w"
  by (induction pre) (simp_all add: dropWhile_fixed [of w P "[]", simplified])

lemma trim_keeps_suffix:
  assumes "w \<noteq> []" and "\<not> is_space (hd w)" and "\<not> is_space (last w)"
  shows "trim (pre @ w) = dropWhile is_space pre @ w"
proof -
  have "dropWhile is_space (pre @ w) = dropWhile is_space pre @ w"
    using assms(1,2) by (rule dropWhile_keeps_suffix)
  moreover have "dropWhile is_space (rev w @ rev (dropWhile is_space pre))
                   = rev w @ rev (dropWhile is_space pre)"
    using assms(1,3) by (intro dropWhile_fixed) (simp_all add: hd_rev)
  ultimately show ?thesis by (simp add: trim_def)
qed

lemma dropWhile_rev_fixed:
  assumes "xs \<noteq> []" and "\<not> P (hd xs)"
  shows "dropWhile P (rev (dropWhile P (rev xs))) = rev (dropWhile P (rev xs))"
proof -
  obtain x xs' where xs: "xs = x # xs'" and x: "\<not> P x"
    using assms by (cases xs) auto
  have "dropWhile P (rev xs' @ [x]) = dropWhile P (rev xs') @ [x]"
    using x by (intro dropWhile_keeps_suffix) simp_all
  then show ?thesis
    using x by (simp add: xs)
qed

lemma trim_idem: "trim (trim s) = trim s"
proof (cases "dropWhile is_space s = []")
  case True
  show ?thesis unfolding trim_def True by simp
next
  case False
  then have "\<not> is_space (hd (dropWhile is_space s))"
    by (rule hd_dropWhile)
  with False have "dropWhile is_space (trim s) = trim s"
    unfolding trim_def by (rule dropWhile_rev_fixed)
  then show ?thesis
    by (simp add: trim_def)
qed

section \<open>The score\<close>

text \<open>
  C1: for every text, \<open>analyzeContentQuality\<close> returns a score between 0 and 1, and a
  result that is noteworthy has a score of at least 0.15. White space alone scores 0;
  fewer than three words score 0.1 and are not noteworthy; on every other text
  \<open>isNoteworthy\<close> is exactly \<open>score \<ge> 0.15\<close>.
\<close>

theorem score_bounds:
  "0 \<le> score (analyzeContentQuality text) \<and> score (analyzeContentQuality text) \<le> 1
   \<and> (isNoteworthy (analyzeContentQuality text)
        \<longrightarrow> 15 / 100 \<le> score (analyzeContentQuality text))
   \<and> (trim text = []
        \<longrightarrow> score (analyzeContentQuality text) = 0
            \<and> \<not> isNoteworthy (analyzeContentQuality text))
   \<and> (trim text \<noteq> [] \<and> length (split_ws (trim (toLowerCase text))) < 3
        \<longrightarrow> score (analyzeContentQuality text) = 1 / 10
            \<and> \<not> isNoteworthy (analyzeContentQuality text))
   \<and> (trim text \<noteq> [] \<and> 3 \<le> length (split_ws (trim (toLowerCase text)))
        \<longrightarrow> isNoteworthy (analyzeContentQuality text)
            = (15 / 100 \<le> score (analyzeContentQuality text)))"
proof (cases "trim text = []")
  case True
  then show ?thesis by (simp add: analyzeContentQuality_def)
next
  case False
  then have ne: "text \<noteq> []" by (auto simp: trim_Nil)
  show ?thesis
  proof (cases "length (split_ws (trim (toLowerCase text))) < 3")
    case True
    with False ne show ?thesis by (simp add: analyzeContentQuality_def Let_def)
  next
    case long: False
    define y where "y = max 0 (min 1 (unboundedScore (trim (toLowerCase text))
      (length (split_ws (trim (toLowerCase text))))))"
    have sc: "score (analyzeContentQuality text) = y"
      and nw: "isNoteworthy (analyzeContentQuality text) = (15 / 100 \<le> y)"
      using False ne long by (simp_all add: analyzeContentQuality_def Let_def y_def)
    have "0 \<le> y \<and> y \<le> 1"
      unfolding y_def by (rule clamp_bounds)
    then show ?thesis
      using False long unfolding sc nw by blast
  qed
qed

theorem score_bounds_witness:
  "trim '' \<newline> '' = []
   \<and> score (analyzeContentQuality '' \<newline> '') = 0
   \<and> trim ''um, so'' \<noteq> [] \<and> length (split_ws (trim (toLowerCase ''um, so''))) < 3
   \<and> score (analyzeContentQuality ''um, so'') = 1 / 10
   \<and> trim ''We fix data'' \<noteq> []
   \<and> 3 \<le> length (split_ws (trim (toLowerCase ''We fix data'')))
   \<and> isNoteworthy (analyzeContentQuality ''We fix data'')
   \<and> 15 / 100 \<le> score (analyzeContentQuality ''We fix data'')"
proof -
  have a: "trim '' \<newline> '' = []"
    by code_simp
  have b: "trim ''um, so'' \<noteq> [] \<and> length (split_ws (trim (toLowerCase ''um, so''))) < 3"
    by code_simp
  have c: "trim ''We fix data'' \<noteq> []
           \<and> 3 \<le> length (split_ws (trim (toLowerCase ''We fix data'')))"
    by code_simp
  have d: "isNoteworthy (analyzeContentQuality ''We fix data'')"
    by code_simp
  show ?thesis
    using a b c d score_bounds [of "'' \<newline> ''"] score_bounds [of "''um, so''"]
      score_bounds [of "''We fix data''"]
    by blast
qed

text \<open>
  C7: the text "um, so, yeah" has three words, matches no indicator and holds two
  fillers, so its score is 0.15 - (2/3) * 0.1 = 1/12, which is at most 0.15, and the
  text is not noteworthy.
\<close>

theorem fillers_only_not_noteworthy:
  "score (analyzeContentQuality ''um, so, yeah'') = 1 / 12
   \<and> score (analyzeContentQuality ''um, so, yeah'') \<le> 15 / 100
   \<and> isNoteworthy (analyzeContentQuality ''um, so, yeah'') = False
   \<and> matchedIndicators (trim (toLowerCase ''um, so, yeah'')) = []
   \<and> length (split_ws (trim (toLowerCase ''um, so, yeah''))) = 3"
  by code_simp

lemma analyze_toLowerCase:
  "analyzeContentQuality (toLowerCase text) = analyzeContentQuality text"
  by (simp add: analyzeContentQuality_def toLowerCase_idem trim_toLowerCase toLowerCase_Nil)

lemma no_upper_class_in_lower: "re_ends False (toLowerCase s) (Cls Upper) n = []"
proof (cases "drop n s")
  case Nil
  then show ?thesis by (simp add: toLowerCase_def drop_map)
next
  case (Cons x xs)
  then show ?thesis by (simp add: toLowerCase_def drop_map not_upper_toLowerChar)
qed

lemma upper_seq_in_lower: "re_ends False (toLowerCase s) (Seq (Cls Upper) r') m = []"
  by (subst re_ends.simps(6)) (simp add: no_upper_class_in_lower del: re_ends.simps)

lemma behind_upper_seq_in_lower:
  "re_ends False (toLowerCase s) (Seq r0 (Seq (Cls Upper) r')) n = []"
  by (subst re_ends.simps(6)) (simp add: upper_seq_in_lower del: re_ends.simps)

lemma upper_first_never_matches:
  "re_test False (Seq r0 (Seq (Cls Upper) r')) (toLowerCase s) = False"
  by (simp add: re_test_def behind_upper_seq_in_lower list_ex_iff del: re_ends.simps)

lemma list_all_filter_imp: "list_all Q (filter P xs) = list_all (\<lambda>x. P x \<longrightarrow> Q x) xs"
  by (induction xs) auto

lemma proper_nouns_never_found:
  "list_all (\<lambda>ind. name ind \<noteq> ''proper nouns'') (matchedIndicators (toLowerCase s))"
  unfolding matchedIndicators_def list_all_filter_imp infoIndicators_def
  by (simp add: upper_first_never_matches del: re_ends.simps)

text \<open>
  C10: the scorer ignores case. A text and its lower-case form get the same score and
  the same \<open>isNoteworthy\<close>, and the indicator "proper nouns", whose pattern starts with
  an upper-case letter, is never found in the normalized text, which is lower case.
\<close>

theorem scorer_ignores_case:
  "score (analyzeContentQuality (toLowerCase text)) = score (analyzeContentQuality text)
   \<and> isNoteworthy (analyzeContentQuality (toLowerCase text))
       = isNoteworthy (analyzeContentQuality text)
   \<and> list_all (\<lambda>ind. name ind \<noteq> ''proper nouns'')
        (matchedIndicators (trim (toLowerCase text)))
   \<and> re_test False (pattern (infoIndicators ! 1)) (trim (toLowerCase text)) = False
   \<and> name (infoIndicators ! 1) = ''proper nouns''"
proof -
  have "pattern (infoIndicators ! 1)
          = Seq (NotBehind (Seq (Lit ''.'') (Plus Space))) (Seq (Cls Upper) (Plus Lower))"
    and "name (infoIndicators ! 1) = ''proper nouns''"
    by (simp_all add: infoIndicators_def)
  then show ?thesis
    by (simp add: analyze_toLowerCase trim_toLowerCase proper_nouns_never_found
        upper_first_never_matches)
qed

section \<open>The similarity measures, verified\<close>

lemma count_members:
  "foldl (\<lambda>k word. if word \<in> set ys then Suc k else k) k0 xs
     = k0 + length (filter (\<lambda>word. word \<in> set ys) xs)"
  by (induction xs arbitrary: k0) simp_all

lemma common_distinct:
  assumes "distinct xs" and "distinct ys"
  shows "length (filter (\<lambda>w. w \<in> set ys) xs)
           = length (filter (\<lambda>w. w \<in> set xs) ys)"
proof -
  have "length (filter (\<lambda>w. w \<in> set ys) xs) = card (set ys \<inter> set xs)"
    using assms(1) by (simp add: distinct_length_filter Collect_mem_eq)
  moreover have "length (filter (\<lambda>w. w \<in> set xs) ys) = card (set xs \<inter> set ys)"
    using assms(2) by (simp add: distinct_length_filter)
  ultimately show ?thesis by (simp add: Int_commute)
qed

text \<open>
  C2, as stated, fails: the count runs over the words of the first argument, so a word
  that the first text repeats is counted each time.
\<close>

theorem overlap_not_symmetric:
  "calculateSimpleStringSimilarity ''a a b'' ''a c d'' = 2 / 3
   \<and> calculateSimpleStringSimilarity ''a c d'' ''a a b'' = 1 / 3
   \<and> calculateSimpleStringSimilarity ''a a b'' ''a c d''
       \<noteq> calculateSimpleStringSimilarity ''a c d'' ''a a b''"
  by code_simp

text \<open>
  C2, amended: the word-overlap similarity does not depend on the order of its arguments
  when neither text, in lower case and split at white space, repeats a word.
\<close>

theorem overlap_symmetric_distinct:
  assumes "distinct (split_ws (toLowerCase a))" and "distinct (split_ws (toLowerCase b))"
  shows "calculateSimpleStringSimilarity a b = calculateSimpleStringSimilarity b a"
proof -
  have "length (filter (\<lambda>w. w \<in> set (split_ws (toLowerCase b)))
                  (split_ws (toLowerCase a)))
      = length (filter (\<lambda>w. w \<in> set (split_ws (toLowerCase a)))
                  (split_ws (toLowerCase b)))"
    using assms by (rule common_distinct)
  then show ?thesis
    by (auto simp add: calculateSimpleStringSimilarity_def Let_def count_members max.commute)
qed

theorem overlap_symmetric_distinct_witness:
  "distinct (split_ws (toLowerCase ''Meeting at noon''))
   \<and> distinct (split_ws (toLowerCase ''the meeting moved''))
   \<and> calculateSimpleStringSimilarity ''Meeting at noon'' ''the meeting moved'' = 1 / 3
   \<and> calculateSimpleStringSimilarity ''the meeting moved'' ''Meeting at noon'' = 1 / 3"
proof -
  have a: "distinct (split_ws (toLowerCase ''Meeting at noon''))"
    and b: "distinct (split_ws (toLowerCase ''the meeting moved''))"
    by code_simp+
  have c: "calculateSimpleStringSimilarity ''Meeting at noon'' ''the meeting moved'' = 1 / 3"
    by code_simp
  show ?thesis
    using a b c overlap_symmetric_distinct [OF a b] by simp
qed

lemma matrix_diagonal: "matrix a a i i = 0"
  by (induction i) (simp_all add: Let_def)

lemma overlap_by_lower:
  "calculateSimpleStringSimilarity a b
     = calculateSimpleStringSimilarity (toLowerCase a) (toLowerCase b)"
  by (simp add: calculateSimpleStringSimilarity_def toLowerCase_idem)

lemma edit_by_lower:
  "calculateStringSimilarity a b
     = calculateStringSimilarity (toLowerCase a) (toLowerCase b)"
proof (cases "toLowerCase a = toLowerCase b")
  case True
  then have len: "length a = length b"
    by (metis length_toLowerCase)
  show ?thesis
    using True len
    by (auto simp add: calculateStringSimilarity_def Let_def matrix_diagonal
        toLowerCase_idem)
next
  case False
  then have "a \<noteq> b" by auto
  with False show ?thesis
    by (simp add: calculateStringSimilarity_def Let_def toLowerCase_idem toLowerCase_Nil)
qed

text \<open>
  C6, as stated, fails at the empty string: both measures compare their arguments for
  equality first, so two empty strings have similarity 1, not 0.
\<close>

theorem similarity_of_empty_strings:
  "calculateSimpleStringSimilarity [] [] = 1 \<and> calculateStringSimilarity [] [] = 1
   \<and> calculateSimpleStringSimilarity [] [] \<noteq> 0 \<and> calculateStringSimilarity [] [] \<noteq> 0"
  by (simp add: calculateSimpleStringSimilarity_def calculateStringSimilarity_def
      toLowerCase_def)

text \<open>
  C6, amended: for both measures a non-empty string has similarity 1 to itself and
  similarity 0 to the empty string, in either order; and arguments that differ only in
  the case of their letters give the same similarity.
\<close>

theorem similarity_corners:
  "(s \<noteq> [] \<longrightarrow>
      calculateSimpleStringSimilarity s s = 1 \<and> calculateStringSimilarity s s = 1
      \<and> calculateSimpleStringSimilarity s [] = 0 \<and> calculateSimpleStringSimilarity [] s = 0
      \<and> calculateStringSimilarity s [] = 0 \<and> calculateStringSimilarity [] s = 0)
   \<and> (toLowerCase a = toLowerCase a' \<and> toLowerCase b = toLowerCase b' \<longrightarrow>
      calculateSimpleStringSimilarity a b = calculateSimpleStringSimilarity a' b'
      \<and> calculateStringSimilarity a b = calculateStringSimilarity a' b')"
proof -
  have "calculateSimpleStringSimilarity a b = calculateSimpleStringSimilarity a' b'
      \<and> calculateStringSimilarity a b = calculateStringSimilarity a' b'"
    if "toLowerCase a = toLowerCase a'" and "toLowerCase b = toLowerCase b'"
    using that overlap_by_lower [of a b] overlap_by_lower [of a' b']
      edit_by_lower [of a b] edit_by_lower [of a' b'] by simp
  moreover have "calculateSimpleStringSimilarity s s = 1 \<and> calculateStringSimilarity s s = 1
      \<and> calculateSimpleStringSimilarity s [] = 0 \<and> calculateSimpleStringSimilarity [] s = 0
      \<and> calculateStringSimilarity s [] = 0 \<and> calculateStringSimilarity [] s = 0"
    if "s \<noteq> []"
    using that
    by (simp add: calculateSimpleStringSimilarity_def calculateStringSimilarity_def
        toLowerCase_def)
  ultimately show ?thesis by blast
qed

theorem similarity_corners_witness:
  "''Note'' \<noteq> [] \<and> toLowerCase ''Note'' = toLowerCase ''NOTE''
   \<and> toLowerCase ''a note'' = toLowerCase ''A Note''
   \<and> calculateSimpleStringSimilarity ''Note'' ''Note'' = 1
   \<and> calculateStringSimilarity ''Note'' [] = 0
   \<and> calculateSimpleStringSimilarity ''Note'' ''a note''
       = calculateSimpleStringSimilarity ''NOTE'' ''A Note''
   \<and> calculateStringSimilarity ''Note'' ''a note''
       = calculateStringSimilarity ''NOTE'' ''A Note''"
proof -
  have a: "''Note'' \<noteq> []" by simp
  have b: "toLowerCase ''Note'' = toLowerCase ''NOTE''"
    and c: "toLowerCase ''a note'' = toLowerCase ''A Note''"
    by code_simp+
  show ?thesis
    using a b c
      similarity_corners [of "''Note''" "''Note''" "''NOTE''" "''a note''" "''A Note''"]
    by blast
qed

section \<open>The session, verified\<close>

subsection \<open>What a flush changes\<close>

lemma note_sync_frame:
  "flushed (snd (generateTopicalNote_sync text s)) = flushed s
   \<and> accumulatedTranscription (snd (generateTopicalNote_sync text s))
       = accumulatedTranscription s
   \<and> pendingNotes (snd (generateTopicalNote_sync text s)) = pendingNotes s
   \<and> transcribed (snd (generateTopicalNote_sync text s)) = transcribed s
   \<and> transcriptionErrorCount (snd (generateTopicalNote_sync text s))
       = transcriptionErrorCount s
   \<and> mediaRecorder (snd (generateTopicalNote_sync text s)) = mediaRecorder s
   \<and> streamActive (snd (generateTopicalNote_sync text s)) = streamActive s
   \<and> audioChunks (snd (generateTopicalNote_sync text s)) = audioChunks s"
  by (simp add: generateTopicalNote_sync_def Let_def)

lemma note_sync_scored:
  "scored (snd (generateTopicalNote_sync text s))
     = (if trim text = [] then scored s else scored s @ [text])"
  by (auto simp add: generateTopicalNote_sync_def Let_def trim_Nil)

lemma note_resume_frame:
  "flushed (snd (generateTopicalNote_resume e text s)) = flushed s
   \<and> scored (snd (generateTopicalNote_resume e text s)) = scored s
   \<and> accumulatedTranscription (snd (generateTopicalNote_resume e text s))
       = accumulatedTranscription s
   \<and> pendingNotes (snd (generateTopicalNote_resume e text s)) = pendingNotes s
   \<and> transcribed (snd (generateTopicalNote_resume e text s)) = transcribed s
   \<and> transcriptionErrorCount (snd (generateTopicalNote_resume e text s))
       = transcriptionErrorCount s
   \<and> mediaRecorder (snd (generateTopicalNote_resume e text s)) = mediaRecorder s
   \<and> streamActive (snd (generateTopicalNote_resume e text s)) = streamActive s
   \<and> audioChunks (snd (generateTopicalNote_resume e text s)) = audioChunks s"
  by (simp add: generateTopicalNote_resume_def Let_def split: option.split)

lemma process_skip:
  "trim (accumulatedTranscription s) = []
     \<or> length (split_space (trim (accumulatedTranscription s))) < minContentLength
   \<Longrightarrow> processAccumulatedContent_sync s = s"
  by (auto simp add: processAccumulatedContent_sync_def Let_def)

lemma process_flush:
  assumes "trim (accumulatedTranscription s) \<noteq> []"
    and "minContentLength \<le> length (split_space (trim (accumulatedTranscription s)))"
  shows "flushed (processAccumulatedContent_sync s)
           = flushed s @ [trim (accumulatedTranscription s)]"
    and "scored (processAccumulatedContent_sync s)
           = scored s @ [trim (accumulatedTranscription s)]"
    and "(pendingNotes (processAccumulatedContent_sync s) = pendingNotes s
            \<and> accumulatedTranscription (processAccumulatedContent_sync s) = [])
         \<or> (pendingNotes (processAccumulatedContent_sync s)
               = pendingNotes s @ [trim (accumulatedTranscription s)]
            \<and> accumulatedTranscription (processAccumulatedContent_sync s)
               = accumulatedTranscription s)"
  using assms
  by (simp_all add: processAccumulatedContent_sync_def Let_def split_beta note_sync_frame
      note_sync_scored trim_idem)

lemma process_frame:
  "transcribed (processAccumulatedContent_sync s) = transcribed s
   \<and> transcriptionErrorCount (processAccumulatedContent_sync s) = transcriptionErrorCount s
   \<and> mediaRecorder (processAccumulatedContent_sync s) = mediaRecorder s
   \<and> streamActive (processAccumulatedContent_sync s) = streamActive s
   \<and> audioChunks (processAccumulatedContent_sync s) = audioChunks s"
  by (simp add: processAccumulatedContent_sync_def Let_def split_beta note_sync_frame)

lemma returned_frame:
  "flushed (noteReturned e i fin s) = flushed s
   \<and> scored (noteReturned e i fin s) = scored s
   \<and> transcribed (noteReturned e i fin s) = transcribed s
   \<and> transcriptionErrorCount (noteReturned e i fin s) = transcriptionErrorCount s
   \<and> mediaRecorder (noteReturned e i fin s) = mediaRecorder s
   \<and> streamActive (noteReturned e i fin s) = streamActive s
   \<and> audioChunks (noteReturned e i fin s) = audioChunks s"
  by (simp add: noteReturned_def finishProcessing_def Let_def split_beta note_resume_frame)

lemma returned_clears:
  assumes "i < length (pendingNotes s)"
  shows "accumulatedTranscription (noteReturned e i fin s) = []
     \<and> pendingNotes (noteReturned e i fin s)
         = take i (pendingNotes s) @ drop (Suc i) (pendingNotes s)"
  using assms
  by (simp add: noteReturned_def finishProcessing_def Let_def split_beta note_resume_frame)

lemma awaited_skip:
  "trim (accumulatedTranscription s) = []
     \<or> length (split_space (trim (accumulatedTranscription s))) < minContentLength
   \<Longrightarrow> processAccumulatedContent_awaited e fin s = s"
  by (simp add: processAccumulatedContent_awaited_def process_skip)

lemma awaited_flush:
  assumes "trim (accumulatedTranscription s) \<noteq> []"
    and "minContentLength \<le> length (split_space (trim (accumulatedTranscription s)))"
  shows "flushed (processAccumulatedContent_awaited e fin s)
           = flushed s @ [trim (accumulatedTranscription s)]"
    and "scored (processAccumulatedContent_awaited e fin s)
           = scored s @ [trim (accumulatedTranscription s)]"
    and "accumulatedTranscription (processAccumulatedContent_awaited e fin s) = []"
    and "pendingNotes (processAccumulatedContent_awaited e fin s) = pendingNotes s"
proof -
  let ?s1 = "processAccumulatedContent_sync s"
  note fl = process_flush [OF assms]
  show "flushed (processAccumulatedContent_awaited e fin s)
           = flushed s @ [trim (accumulatedTranscription s)]"
    using fl(1) by (simp add: processAccumulatedContent_awaited_def Let_def returned_frame)
  show "scored (processAccumulatedContent_awaited e fin s)
           = scored s @ [trim (accumulatedTranscription s)]"
    using fl(2) by (simp add: processAccumulatedContent_awaited_def Let_def returned_frame)
  from fl(3) show "accumulatedTranscription (processAccumulatedContent_awaited e fin s) = []"
  proof
    assume "pendingNotes ?s1 = pendingNotes s \<and> accumulatedTranscription ?s1 = []"
    then show ?thesis by (simp add: processAccumulatedContent_awaited_def Let_def)
  next
    assume a: "pendingNotes ?s1 = pendingNotes s @ [trim (accumulatedTranscription s)]
        \<and> accumulatedTranscription ?s1 = accumulatedTranscription s"
    then have "length (pendingNotes s) < length (pendingNotes ?s1)" by simp
    then show ?thesis
      using returned_clears [of "length (pendingNotes s)" ?s1 e fin]
      by (simp add: processAccumulatedContent_awaited_def Let_def)
  qed
  from fl(3) show "pendingNotes (processAccumulatedContent_awaited e fin s) = pendingNotes s"
  proof
    assume "pendingNotes ?s1 = pendingNotes s \<and> accumulatedTranscription ?s1 = []"
    then show ?thesis by (simp add: processAccumulatedContent_awaited_def Let_def)
  next
    assume a: "pendingNotes ?s1 = pendingNotes s @ [trim (accumulatedTranscription s)]
        \<and> accumulatedTranscription ?s1 = accumulatedTranscription s"
    then have "length (pendingNotes s) < length (pendingNotes ?s1)" by simp
    then show ?thesis
      using returned_clears [of "length (pendingNotes s)" ?s1 e fin] a
      by (simp add: processAccumulatedContent_awaited_def Let_def)
  qed
qed

lemma fallback_ends: "fallbackMessage \<noteq> [] \<and> \<not> is_space (hd fallbackMessage)
   \<and> \<not> is_space (last fallbackMessage)"
  by (simp add: fallbackMessage_def is_space_def)

lemma fallback_spaces: "length (filter (\<lambda>c. c = CHR '' '') fallbackMessage) = 4"
  by (simp add: fallbackMessage_def)

lemma trim_with_fallback:
  "trim (buffer @ CHR '' '' # fallbackMessage)
     = dropWhile is_space (buffer @ '' '') @ fallbackMessage"
  using fallback_ends trim_keeps_suffix [of fallbackMessage "buffer @ '' ''"] by simp


lemma fallback_passes_gate:
  "trim (buffer @ CHR '' '' # fallbackMessage) \<noteq> []
   \<and> minContentLength \<le> length (split_space (trim (buffer @ CHR '' '' # fallbackMessage)))"
  using fallback_ends
  by (simp add: trim_with_fallback split_space_length fallback_spaces minContentLength_def)

lemma error_effect:
  "transcriptionErrorCount (handleTranscriptionError s) = transcriptionErrorCount s + 1"
  "flushed (handleTranscriptionError s)
     = (if maxTranscriptionErrors \<le> transcriptionErrorCount s + 1
           \<and> \<not> str_includes (accumulatedTranscription s) fallbackMessage
        then flushed s @ [trim (accumulatedTranscription s @ CHR '' '' # fallbackMessage)]
        else flushed s)"
  "scored (handleTranscriptionError s)
     = (if maxTranscriptionErrors \<le> transcriptionErrorCount s + 1
           \<and> \<not> str_includes (accumulatedTranscription s) fallbackMessage
        then scored s @ [trim (accumulatedTranscription s @ CHR '' '' # fallbackMessage)]
        else scored s)"
proof -
  let ?s2 = "s\<lparr>transcriptionErrorCount := transcriptionErrorCount s + 1,
               accumulatedTranscription :=
                 accumulatedTranscription s @ CHR '' '' # fallbackMessage\<rparr>"
  have gate: "trim (accumulatedTranscription ?s2) \<noteq> []"
    "minContentLength \<le> length (split_space (trim (accumulatedTranscription ?s2)))"
    using fallback_passes_gate [of "accumulatedTranscription s"] by simp_all
  note flush = process_flush(1,2) [OF gate] process_frame [of ?s2]
  show "transcriptionErrorCount (handleTranscriptionError s) = transcriptionErrorCount s + 1"
    using flush by (simp add: handleTranscriptionError_def Let_def)
  show "flushed (handleTranscriptionError s)
     = (if maxTranscriptionErrors \<le> transcriptionErrorCount s + 1
           \<and> \<not> str_includes (accumulatedTranscription s) fallbackMessage
        then flushed s @ [trim (accumulatedTranscription s @ CHR '' '' # fallbackMessage)]
        else flushed s)"
    using flush by (simp add: handleTranscriptionError_def Let_def)
  show "scored (handleTranscriptionError s)
     = (if maxTranscriptionErrors \<le> transcriptionErrorCount s + 1
           \<and> \<not> str_includes (accumulatedTranscription s) fallbackMessage
        then scored s @ [trim (accumulatedTranscription s @ CHR '' '' # fallbackMessage)]
        else scored s)"
    using flush by (simp add: handleTranscriptionError_def Let_def)
qed

lemma error_frame:
  "transcribed (handleTranscriptionError s) = transcribed s
   \<and> mediaRecorder (handleTranscriptionError s) = mediaRecorder s
   \<and> streamActive (handleTranscriptionError s) = streamActive s
   \<and> audioChunks (handleTranscriptionError s) = audioChunks s"
  by (simp add: handleTranscriptionError_def Let_def process_frame)


lemma create_frame:
  "flushed (snd (createAndStartMediaRecorder e s)) = flushed s
   \<and> scored (snd (createAndStartMediaRecorder e s)) = scored s
   \<and> transcribed (snd (createAndStartMediaRecorder e s)) = transcribed s
   \<and> transcriptionErrorCount (snd (createAndStartMediaRecorder e s))
       = transcriptionErrorCount s
   \<and> accumulatedTranscription (snd (createAndStartMediaRecorder e s))
       = accumulatedTranscription s
   \<and> pendingNotes (snd (createAndStartMediaRecorder e s)) = pendingNotes s
   \<and> streamActive (snd (createAndStartMediaRecorder e s)) = streamActive s"
  by (simp add: createAndStartMediaRecorder_def Let_def split: creation.split)

lemma restart_frame:
  "flushed (restartRecording e c s) = flushed s
   \<and> scored (restartRecording e c s) = scored s
   \<and> transcribed (restartRecording e c s) = transcribed s
   \<and> transcriptionErrorCount (restartRecording e c s) = transcriptionErrorCount s
   \<and> accumulatedTranscription (restartRecording e c s) = accumulatedTranscription s
   \<and> pendingNotes (restartRecording e c s) = pendingNotes s
   \<and> streamActive (restartRecording e c s) = streamActive s"
  by (simp add: restartRecording_def Let_def create_frame)




lemma process_grows:
  "\<exists>new. flushed (processAccumulatedContent_sync s) = flushed s @ new
         \<and> scored (processAccumulatedContent_sync s) = scored s @ new
         \<and> list_all (\<lambda>c. trim c \<noteq> []) new"
proof (cases "trim (accumulatedTranscription s) \<noteq> []
     \<and> minContentLength \<le> length (split_space (trim (accumulatedTranscription s)))")
  case True
  then have "flushed (processAccumulatedContent_sync s)
               = flushed s @ [trim (accumulatedTranscription s)]
     \<and> scored (processAccumulatedContent_sync s)
               = scored s @ [trim (accumulatedTranscription s)]
     \<and> list_all (\<lambda>c. trim c \<noteq> []) [trim (accumulatedTranscription s)]"
    by (simp add: process_flush(1,2) trim_idem)
  then show ?thesis by blast
next
  case False
  then have "processAccumulatedContent_sync s = s"
    by (intro process_skip) auto
  then show ?thesis by simp
qed

lemma awaited_grows:
  "\<exists>new. flushed (processAccumulatedContent_awaited e fin s) = flushed s @ new
         \<and> scored (processAccumulatedContent_awaited e fin s) = scored s @ new
         \<and> list_all (\<lambda>c. trim c \<noteq> []) new"
  using process_grows [of s]
  by (simp add: processAccumulatedContent_awaited_def Let_def returned_frame)

lemma check_grows:
  "\<exists>new. flushed (checkForSpeechPause now s) = flushed s @ new
         \<and> scored (checkForSpeechPause now s) = scored s @ new
         \<and> list_all (\<lambda>c. trim c \<noteq> []) new"
  using process_grows [of s]
  by (simp add: checkForSpeechPause_def Let_def split: option.split)

lemma sample_grows:
  "\<exists>new. flushed (sampleAudioLevel average now s) = flushed s @ new
         \<and> scored (sampleAudioLevel average now s) = scored s @ new
         \<and> list_all (\<lambda>c. trim c \<noteq> []) new"
proof (cases "\<not> analyserSet s \<or> mediaRecorder s = None")
  case True
  then show ?thesis by (simp add: sampleAudioLevel_def)
next
  case False
  define s2 where "s2 = (if audioLevelHistorySize < length (audioLevelHistory s @ [average])
       then s\<lparr>audioLevel := average,
              audioLevelHistory := tl (audioLevelHistory s @ [average])\<rparr>
       else s\<lparr>audioLevel := average, audioLevelHistory := audioLevelHistory s @ [average]\<rparr>)"
  have same: "flushed s2 = flushed s" "scored s2 = scored s"
    by (simp_all add: s2_def)
  have "sampleAudioLevel average now s
          = (checkForSpeechPause now s2)\<lparr>samplingScheduled := True\<rparr>"
    using False by (auto simp add: sampleAudioLevel_def Let_def s2_def)
  then show ?thesis
    using check_grows [of now s2] same by simp
qed

lemma error_grows:
  "\<exists>new. flushed (handleTranscriptionError s) = flushed s @ new
         \<and> scored (handleTranscriptionError s) = scored s @ new
         \<and> list_all (\<lambda>c. trim c \<noteq> []) new"
proof (cases "maxTranscriptionErrors \<le> transcriptionErrorCount s + 1
           \<and> \<not> str_includes (accumulatedTranscription s) fallbackMessage")
  case True
  have "trim (trim (accumulatedTranscription s @ CHR '' '' # fallbackMessage)) \<noteq> []"
    using fallback_passes_gate [of "accumulatedTranscription s"] by (simp add: trim_idem)
  then show ?thesis
    unfolding error_effect using True by simp
next
  case False
  show ?thesis
    unfolding error_effect using False by auto
qed

lemma chunks_grows:
  "\<exists>new. flushed (processAudioChunks e now s) = flushed s @ new
         \<and> scored (processAudioChunks e now s) = scored s @ new
         \<and> list_all (\<lambda>c. trim c \<noteq> []) new"
proof -
  let ?P = "\<lambda>s'. \<exists>new. flushed s' = flushed s @ new \<and> scored s' = scored s @ new
         \<and> list_all (\<lambda>c. trim c \<noteq> []) new"
  have err: "?P (handleTranscriptionError s1)"
    if "flushed s1 = flushed s" and "scored s1 = scored s" for s1
    using error_grows [of s1] that by simp
  have proc: "?P (processAccumulatedContent_sync s1)"
    if "flushed s1 = flushed s" and "scored s1 = scored s" for s1
    using process_grows [of s1] that by simp
  have restart: "?P (restartRecording e c (s1\<lparr>isProcessing := False\<rparr>))" if "?P s1" for s1 c
    using that by (simp add: restart_frame)
  show ?thesis
  proof (cases "0 < length (audioChunks s)")
    case False
    then show ?thesis
      by (simp add: processAudioChunks_def restart_frame)
  next
    case True
    show ?thesis
    proof (cases "length (concat (audioChunks s)) < 800")
      case small: True
      then show ?thesis
        using True by (simp add: processAudioChunks_def Let_def restart_frame)
    next
      case big: False
      let ?s2 = "s\<lparr>isProcessing := True,
                    transcribed := transcribed s @ [concat (audioChunks s)]\<rparr>"
      define s3 where "s3 = (case transcribe e (concat (audioChunks s)) of
                         TranscribeThrows \<Rightarrow> handleTranscriptionError ?s2
                       | TranscribeReturns text \<Rightarrow>
                           let s4 = ?s2\<lparr>transcriptionErrorCount := 0\<rparr>
                           in if text \<noteq> []
                              then
                                let s5 = s4\<lparr>accumulatedTranscription :=
                                              accumulatedTranscription s4 @ '' '' @ text\<rparr>;
                                    timeSinceLastProcessing = now - lastProcessingTime s5
                                in if 3000 < timeSinceLastProcessing
                                      \<and> 0 < length (trim (accumulatedTranscription s5))
                                   then processAccumulatedContent_sync s5
                                   else s5
                              else handleTranscriptionError s4)"
      have "?P s3"
        unfolding s3_def
        by (auto simp add: Let_def split: transcribe_result.split intro!: err proc)
      then have "?P (restartRecording e True (s3\<lparr>isProcessing := False\<rparr>))"
        by (rule restart)
      moreover have "processAudioChunks e now s
                       = restartRecording e True (s3\<lparr>isProcessing := False\<rparr>)"
        using True big by (simp add: processAudioChunks_def Let_def s3_def)
      ultimately show ?thesis by simp
    qed
  qed
qed

lemma stop_grows:
  "\<exists>new. flushed (stopRecording e fin s) = flushed s @ new
         \<and> scored (stopRecording e fin s) = scored s @ new
         \<and> list_all (\<lambda>c. trim c \<noteq> []) new"
  using awaited_grows [of e fin "s\<lparr>samplingScheduled := False, intervalSet := False,
     mediaRecorder := None, streamActive := False\<rparr>"]
  by (simp add: stopRecording_def Let_def)

lemma step_grows:
  "\<exists>new. flushed (step e s ev) = flushed s @ new \<and> scored (step e s ev) = scored s @ new
         \<and> list_all (\<lambda>c. trim c \<noteq> []) new"
proof (cases ev)
  case (Sample average now)
  then show ?thesis using sample_grows [of average now s] by simp
next
  case IntervalTick
  then show ?thesis by (simp add: intervalTick_def)
next
  case (DataAvailable chunk)
  then show ?thesis by (simp add: dataAvailable_def)
next
  case (RecorderStopped now)
  then show ?thesis using chunks_grows [of e now s] by simp
next
  case (NoteReturned i fin)
  then show ?thesis by (simp add: returned_frame)
next
  case (Stop fin)
  then show ?thesis using stop_grows [of e fin s] by simp
qed

lemma run_grows:
  "\<exists>new. flushed (run e s evs) = flushed s @ new \<and> scored (run e s evs) = scored s @ new
         \<and> list_all (\<lambda>c. trim c \<noteq> []) new"
proof (induction evs arbitrary: s)
  case Nil
  show ?case by (simp add: run_def)
next
  case (Cons ev evs)
  obtain new1 where one: "flushed (step e s ev) = flushed s @ new1"
      "scored (step e s ev) = scored s @ new1" "list_all (\<lambda>c. trim c \<noteq> []) new1"
    using step_grows [of e s ev] by blast
  obtain new2 where two: "flushed (run e (step e s ev) evs) = flushed (step e s ev) @ new2"
      "scored (run e (step e s ev) evs) = scored (step e s ev) @ new2"
      "list_all (\<lambda>c. trim c \<noteq> []) new2"
    using Cons.IH [of "step e s ev"] by blast
  have "run e s (ev # evs) = run e (step e s ev) evs"
    by (simp add: run_def)
  then have "flushed (run e s (ev # evs)) = flushed s @ (new1 @ new2)
      \<and> scored (run e s (ev # evs)) = scored s @ (new1 @ new2)
      \<and> list_all (\<lambda>c. trim c \<noteq> []) (new1 @ new2)"
    using one two by simp
  then show ?case by blast
qed



subsection \<open>The flush on stop\<close>

text \<open>
  C3, as stated, fails: \<open>stopRecording\<close> calls \<open>processAccumulatedContent\<close>, whose own
  guard asks for \<open>minContentLength\<close> words. A session that has heard "hello world" and is
  then stopped keeps the two words in the buffer; nothing is finalized or scored.
\<close>

theorem stop_keeps_short_buffer:
  "accumulatedTranscription
     (run (exampleEnv (TranscribeReturns ''hello world''))
        (started (exampleEnv (TranscribeReturns ''hello world'')) 1000)
        [IntervalTick, DataAvailable (replicate 900 0), RecorderStopped 2000])
     = '' hello world''
   \<and> trim '' hello world'' \<noteq> []
   \<and> flushed
       (run (exampleEnv (TranscribeReturns ''hello world''))
          (started (exampleEnv (TranscribeReturns ''hello world'')) 1000)
          [IntervalTick, DataAvailable (replicate 900 0), RecorderStopped 2000,
           Stop 9000]) = []
   \<and> scored
       (run (exampleEnv (TranscribeReturns ''hello world''))
          (started (exampleEnv (TranscribeReturns ''hello world'')) 1000)
          [IntervalTick, DataAvailable (replicate 900 0), RecorderStopped 2000,
           Stop 9000]) = []
   \<and> accumulatedTranscription
       (run (exampleEnv (TranscribeReturns ''hello world''))
          (started (exampleEnv (TranscribeReturns ''hello world'')) 1000)
          [IntervalTick, DataAvailable (replicate 900 0), RecorderStopped 2000,
           Stop 9000]) = '' hello world''"
  by code_simp

text \<open>
  C3, amended: on stop, whatever the time since the last note, a buffer whose trimmed
  content has at least \<open>minContentLength\<close> pieces between single spaces is finalized, given
  to the scorer and cleared; a buffer with fewer pieces is left as it is and nothing is
  scored.
\<close>

theorem stop_flush:
  "(trim (accumulatedTranscription s) \<noteq> []
      \<and> minContentLength \<le> length (split_space (trim (accumulatedTranscription s)))
      \<longrightarrow> flushed (stopRecording e fin s) = flushed s @ [trim (accumulatedTranscription s)]
          \<and> scored (stopRecording e fin s) = scored s @ [trim (accumulatedTranscription s)]
          \<and> accumulatedTranscription (stopRecording e fin s) = [])
   \<and> (length (split_space (trim (accumulatedTranscription s))) < minContentLength
      \<longrightarrow> flushed (stopRecording e fin s) = flushed s
          \<and> scored (stopRecording e fin s) = scored s
          \<and> accumulatedTranscription (stopRecording e fin s) = accumulatedTranscription s)"
proof -
  let ?s1 = "s\<lparr>samplingScheduled := False, intervalSet := False, mediaRecorder := None,
                streamActive := False\<rparr>"
  have a: ?thesis if "trim (accumulatedTranscription s) \<noteq> []"
      and "minContentLength \<le> length (split_space (trim (accumulatedTranscription s)))"
    using that awaited_flush [of ?s1 e fin]
    by (simp add: stopRecording_def Let_def)
  have b: ?thesis
    if "length (split_space (trim (accumulatedTranscription s))) < minContentLength"
    using that awaited_skip [of ?s1 e fin]
    by (simp add: stopRecording_def Let_def)
  show ?thesis using a b
    by (cases "length (split_space (trim (accumulatedTranscription s))) < minContentLength")
       (auto simp: not_less split_space_def minContentLength_def trim_Nil)
qed

theorem stop_flush_witness:
  "trim '' one two three'' \<noteq> []
   \<and> minContentLength \<le> length (split_space (trim '' one two three''))
   \<and> flushed (stopRecording (exampleEnv TranscribeThrows) 9000
        (initial\<lparr>accumulatedTranscription := '' one two three''\<rparr>)) = [''one two three'']
   \<and> accumulatedTranscription (stopRecording (exampleEnv TranscribeThrows) 9000
        (initial\<lparr>accumulatedTranscription := '' one two three''\<rparr>)) = []
   \<and> length (split_space (trim '' hello world'')) < minContentLength
   \<and> flushed (stopRecording (exampleEnv TranscribeThrows) 9000
        (initial\<lparr>accumulatedTranscription := '' hello world''\<rparr>)) = []
   \<and> accumulatedTranscription (stopRecording (exampleEnv TranscribeThrows) 9000
        (initial\<lparr>accumulatedTranscription := '' hello world''\<rparr>)) = '' hello world''"
proof -
  have a: "trim '' one two three'' \<noteq> []
           \<and> minContentLength \<le> length (split_space (trim '' one two three''))"
    by code_simp
  have b: "length (split_space (trim '' hello world'')) < minContentLength"
    by code_simp
  have c: "trim '' one two three'' = ''one two three''"
    by code_simp
  have d: "flushed initial = []"
    by (simp add: initial_def)
  show ?thesis
    using a b c d
      stop_flush [of "initial\<lparr>accumulatedTranscription := '' one two three''\<rparr>"
        "exampleEnv TranscribeThrows" 9000]
      stop_flush [of "initial\<lparr>accumulatedTranscription := '' hello world''\<rparr>"
        "exampleEnv TranscribeThrows" 9000]
    by simp
qed

subsection \<open>The flush on a pause\<close>

text \<open>
  C4, as stated, fails: the time since the last note must exceed \<open>minTimeBetweenNotes\<close>.
  A session flushes "one two three" and has its note at 4600 ms; it is silent from 4700 ms
  on and hears three more words at 5000 ms. At 5400 ms, exactly 800 ms after the note,
  with five silent samples and 700 ms of silence, \<open>checkForSpeechPause\<close> leaves the
  buffer alone.
\<close>

theorem pause_at_800_no_flush:
  "(let e = exampleEnv (TranscribeReturns ''one two three'');
        s = run e (started e 1000)
              [IntervalTick, DataAvailable (replicate 900 0), RecorderStopped 4500,
               NoteReturned 0 4600, Sample 0 4700,
               IntervalTick, DataAvailable (replicate 900 0), RecorderStopped 5000]
    in flushed s = [''one two three'']
       \<and> pendingNotes s = []
       \<and> lastProcessingTime s = 4600
       \<and> list_all (\<lambda>level. level < minSilenceLevel)
            (drop (length (audioLevelHistory s) - 5) (audioLevelHistory s))
       \<and> silenceStartTime s = Some 4700
       \<and> pauseDetectionThreshold \<le> 5400 - 4700
       \<and> accumulatedTranscription s = '' one two three''
       \<and> minContentLength \<le> length (split_space (trim (accumulatedTranscription s)))
       \<and> minTimeBetweenNotes \<le> 5400 - lastProcessingTime s
       \<and> flushed (checkForSpeechPause 5400 s) = [''one two three'']
       \<and> scored (checkForSpeechPause 5400 s) = [''one two three'']
       \<and> accumulatedTranscription (checkForSpeechPause 5400 s) = '' one two three'')"
  by code_simp

text \<open>
  C4, amended: when the five most recent samples are all below \<open>minSilenceLevel\<close>, the
  start of the silence is recorded and at least \<open>pauseDetectionThreshold\<close> ms old, the
  trimmed buffer has at least \<open>minContentLength\<close> words, and more than
  \<open>minTimeBetweenNotes\<close> ms have passed since the last note, \<open>checkForSpeechPause\<close> flushes
  the buffer: the trimmed content is finalized and scored in that call. The buffer is
  cleared in that call when the scorer turns the content down; otherwise the note
  generation is in flight for this content, the buffer is as it was, and it is cleared
  when that call returns.
\<close>

theorem pause_flush:
  assumes "5 \<le> length (audioLevelHistory s)"
    and "list_all (\<lambda>level. level < minSilenceLevel)
           (drop (length (audioLevelHistory s) - 5) (audioLevelHistory s))"
    and "silenceStartTime s = Some start"
    and "pauseDetectionThreshold \<le> now - start"
    and "minContentLength \<le> length (split_space (trim (accumulatedTranscription s)))"
    and "minTimeBetweenNotes < now - lastProcessingTime s"
  shows "flushed (checkForSpeechPause now s)
           = flushed s @ [trim (accumulatedTranscription s)]
     \<and> scored (checkForSpeechPause now s)
           = scored s @ [trim (accumulatedTranscription s)]
     \<and> ((pendingNotes (checkForSpeechPause now s) = pendingNotes s
           \<and> accumulatedTranscription (checkForSpeechPause now s) = [])
        \<or> (pendingNotes (checkForSpeechPause now s)
              = pendingNotes s @ [trim (accumulatedTranscription s)]
           \<and> accumulatedTranscription (checkForSpeechPause now s)
              = accumulatedTranscription s
           \<and> accumulatedTranscription
                (noteReturned e (length (pendingNotes s)) fin (checkForSpeechPause now s))
              = []))"
proof -
  have ne: "trim (accumulatedTranscription s) \<noteq> []"
    using assms(5) by (auto simp: split_space_def minContentLength_def)
  have wc: "minContentLength \<le> length (split_space (accumulatedTranscription s))"
    using assms(5) split_space_trim_le [of "accumulatedTranscription s"] by simp
  have eq: "checkForSpeechPause now s = processAccumulatedContent_sync s"
    using assms(1-4,6) wc by (simp add: checkForSpeechPause_def Let_def)
  have late: "accumulatedTranscription
      (noteReturned e (length (pendingNotes s)) fin (processAccumulatedContent_sync s)) = []"
    if "pendingNotes (processAccumulatedContent_sync s)
          = pendingNotes s @ [trim (accumulatedTranscription s)]"
    using that
      returned_clears [of "length (pendingNotes s)" "processAccumulatedContent_sync s" e fin]
    by simp
  show ?thesis
    unfolding eq using process_flush [OF ne assms(5)] late by auto
qed

theorem pause_flush_witness:
  "5 \<le> length (replicate 20 (0::rat))
   \<and> list_all (\<lambda>level. level < minSilenceLevel)
        (drop (length (replicate 20 (0::rat)) - 5) (replicate 20 0))
   \<and> pauseDetectionThreshold \<le> 1801 - 1100
   \<and> minContentLength \<le> length (split_space (trim '' one two three''))
   \<and> minTimeBetweenNotes < 1801 - 1000
   \<and> flushed (checkForSpeechPause 1801
        (initial\<lparr>audioLevelHistory := replicate 20 0, silenceStartTime := Some 1100,
           accumulatedTranscription := '' one two three'', lastProcessingTime := 1000\<rparr>))
       = [''one two three'']"
proof -
  let ?s = "initial\<lparr>audioLevelHistory := replicate 20 0, silenceStartTime := Some 1100,
           accumulatedTranscription := '' one two three'', lastProcessingTime := 1000\<rparr>"
  have a: "5 \<le> length (audioLevelHistory ?s)" by simp
  have b: "list_all (\<lambda>level. level < minSilenceLevel)
        (drop (length (audioLevelHistory ?s) - 5) (audioLevelHistory ?s))"
    by (simp add: minSilenceLevel_def list_all_iff)
  have c: "silenceStartTime ?s = Some 1100" by simp
  have d: "pauseDetectionThreshold \<le> 1801 - 1100" by (simp add: pauseDetectionThreshold_def)
  have t: "trim '' one two three'' = ''one two three''" by code_simp
  have f: "minContentLength \<le> length (split_space (trim (accumulatedTranscription ?s)))"
    by (simp add: t) code_simp
  have g: "minTimeBetweenNotes < 1801 - lastProcessingTime ?s"
    by (simp add: minTimeBetweenNotes_def)
  have h: "flushed ?s = []" by (simp add: initial_def)
  show ?thesis
    using pause_flush [OF a b c d f g, of "exampleEnv TranscribeThrows" 1900] a b d f g h t
    by simp
qed

subsection \<open>The fallback phrase\<close>


subsection \<open>No flush of an empty buffer\<close>

text \<open>
  C8: a buffer that is empty or holds white space only is never flushed:
  \<open>processAccumulatedContent\<close>, awaited or not, leaves the session as it is. So along
  every sequence of events (samples, chunk boundaries, returning note generations, stop)
  each text that is finalized, and each text given to the scorer, is non-empty and not
  white space only.
\<close>

theorem flush_never_empty:
  "(trim (accumulatedTranscription s) = []
      \<longrightarrow> processAccumulatedContent_sync s = s
          \<and> processAccumulatedContent_awaited e fin s = s)
   \<and> (\<exists>new. flushed (run e s evs) = flushed s @ new \<and> scored (run e s evs) = scored s @ new
         \<and> list_all (\<lambda>c. c \<noteq> [] \<and> trim c \<noteq> []) new)"
proof -
  obtain new where "flushed (run e s evs) = flushed s @ new"
    "scored (run e s evs) = scored s @ new" "list_all (\<lambda>c. trim c \<noteq> []) new"
    using run_grows [of e s evs] by blast
  moreover from this have "list_all (\<lambda>c. c \<noteq> [] \<and> trim c \<noteq> []) new"
    by (auto simp: list_all_iff trim_Nil)
  ultimately show ?thesis
    using process_skip [of s] awaited_skip [of s e fin] by blast
qed

theorem flush_never_empty_witness:
  "trim (accumulatedTranscription (initial\<lparr>accumulatedTranscription := ''  ''\<rparr>)) = []
   \<and> processAccumulatedContent_sync (initial\<lparr>accumulatedTranscription := ''  ''\<rparr>)
       = initial\<lparr>accumulatedTranscription := ''  ''\<rparr>
   \<and> processAccumulatedContent_awaited (exampleEnv TranscribeThrows) 5000
        (initial\<lparr>accumulatedTranscription := ''  ''\<rparr>)
       = initial\<lparr>accumulatedTranscription := ''  ''\<rparr>"
proof -
  have "trim (accumulatedTranscription (initial\<lparr>accumulatedTranscription := ''  ''\<rparr>)) = []"
    by code_simp
  then show ?thesis
    using flush_never_empty [of "initial\<lparr>accumulatedTranscription := ''  ''\<rparr>"
        "exampleEnv TranscribeThrows" 5000 "[]"]
    by blast
qed

subsection \<open>Small chunks\<close>




end
